theory Spec2Isabelle
  imports Main "HOL-Library.Word" "HOL-Library.Sublist"
begin

section \<open>JavaScript strings\<close>

text \<open>
  A JavaScript string is a finite sequence of 16-bit code units. String literals of the
  source are ASCII and are written \<open>str ''...''\<close>.
\<close>

type_synonym js_string = "16 word list"

definition str :: "string \<Rightarrow> js_string" where
  "str s = map of_char s"

text \<open>
  \<^verbatim>\<open>String.prototype.endsWith(searchString)\<close> with the end position at the length of the
  string: the start is \<open>len - searchLength\<close>, a negative start gives \<open>false\<close>, otherwise
  the code units from the start are compared with the search string.
\<close>

definition endsWith :: "js_string \<Rightarrow> js_string \<Rightarrow> bool" where
  "endsWith s searchString =
     (let len = length s; searchLength = length searchString
      in if len < searchLength then False
         else take searchLength (drop (len - searchLength) s) = searchString)"

text \<open>
  The character classes of the regular expression \<^verbatim>\<open>/^\/p\/[\w-]+/\<close> (no flags):
  \<^verbatim>\<open>\w\<close> is \<^verbatim>\<open>[A-Za-z0-9_]\<close>, and the class \<^verbatim>\<open>[\w-]\<close> adds the hyphen.
\<close>

definition is_word_char :: "16 word \<Rightarrow> bool" where
  "is_word_char c =
     ((0x41 \<le> c \<and> c \<le> 0x5A) \<or> (0x61 \<le> c \<and> c \<le> 0x7A) \<or> (0x30 \<le> c \<and> c \<le> 0x39) \<or> c = 0x5F)"

definition is_word_or_hyphen :: "16 word \<Rightarrow> bool" where
  "is_word_or_hyphen c = (is_word_char c \<or> c = 0x2D)"

text \<open>
  \<^verbatim>\<open>/^\/p\/[\w-]+/.test(s)\<close>: the match is anchored at the start, reads the three code units
  \<^verbatim>\<open>/p/\<close> and then the longest run of \<^verbatim>\<open>[\w-]\<close>, which must not be empty. Nothing is
  required of what follows the run.
\<close>

definition post_path_test :: "js_string \<Rightarrow> bool" where
  "post_path_test s =
     (take 3 s = str ''/p/'' \<and> takeWhile is_word_or_hyphen (drop 3 s) \<noteq> [])"

section \<open>Errors and URLs\<close>

text \<open>
  A thrown JavaScript \<^verbatim>\<open>Error\<close> object, with its \<^verbatim>\<open>name\<close> and \<^verbatim>\<open>message\<close>. A computation
  that can throw returns \<open>js_error + 'a\<close>, with \<open>Inl\<close> for the thrown error.
\<close>

datatype js_error = JsError (err_name: js_string) (err_message: js_string)

text \<open>
  The two fields of a parsed \<^verbatim>\<open>URL\<close> object that the program reads. The constructor
  \<^verbatim>\<open>new URL(url)\<close> belongs to the platform; it is a parameter of the model, a function
  that returns the parsed URL or the \<^verbatim>\<open>TypeError\<close> it throws.
\<close>

record parsed_url =
  hostname :: js_string
  pathname :: js_string

type_synonym url_parser = "js_string \<Rightarrow> js_error + parsed_url"

text \<open>
  The body of the \<^verbatim>\<open>try\<close> block of \<^verbatim>\<open>validateUrl\<close>; the calls of \<^verbatim>\<open>debug\<close> write to the
  diagnostic stream only and are left out.
\<close>

definition validateUrl_try :: "url_parser \<Rightarrow> js_string \<Rightarrow> js_error + bool" where
  "validateUrl_try new_URL u =
     (case new_URL u of
        Inl e \<Rightarrow> Inl e
      | Inr parsed \<Rightarrow>
          (let isValidUrl =
                 (endsWith (hostname parsed) (str ''.substack.com'') \<or>
                  post_path_test (pathname parsed))
           in if \<not> isValidUrl then Inr False else Inr True))"

text \<open>\<^verbatim>\<open>validateUrl\<close>: the \<^verbatim>\<open>catch\<close> clause turns every thrown error into \<^verbatim>\<open>false\<close>.\<close>

definition validateUrl :: "url_parser \<Rightarrow> js_string \<Rightarrow> js_error + bool" where
  "validateUrl new_URL u =
     (case validateUrl_try new_URL u of
        Inl e \<Rightarrow> Inr False
      | Inr b \<Rightarrow> Inr b)"

section \<open>The parsed document and the query interface\<close>

text \<open>
  White space as \<^verbatim>\<open>String.prototype.trim\<close> and the regular expression class \<^verbatim>\<open>\s\<close> see
  it: the ECMAScript WhiteSpace and LineTerminator code points.
\<close>

definition is_whitespace :: "16 word \<Rightarrow> bool" where
  "is_whitespace c =
     ((0x09 \<le> c \<and> c \<le> 0x0D) \<or> c = 0x20 \<or> c = 0xA0 \<or> c = 0x1680 \<or>
      (0x2000 \<le> c \<and> c \<le> 0x200A) \<or> c = 0x2028 \<or> c = 0x2029 \<or> c = 0x202F \<or>
      c = 0x205F \<or> c = 0x3000 \<or> c = 0xFEFF)"

definition trim :: "js_string \<Rightarrow> js_string" where
  "trim s = rev (dropWhile is_whitespace (rev (dropWhile is_whitespace s)))"

text \<open>\<^verbatim>\<open>String.prototype.includes\<close>: the search string occurs at some position.\<close>

fun js_includes :: "js_string \<Rightarrow> js_string \<Rightarrow> bool" where
  "js_includes [] t = (t = [])"
| "js_includes (c # cs) t = (take (length t) (c # cs) = t \<or> js_includes cs t)"

text \<open>The white-space separated tokens of a string; \<open>cur\<close> is the token being read.\<close>

fun tokens :: "js_string \<Rightarrow> js_string \<Rightarrow> js_string list" where
  "tokens cur [] = (if cur = [] then [] else [cur])"
| "tokens cur (c # cs) =
     (if is_whitespace c then (if cur = [] then [] else [cur]) @ tokens [] cs
      else tokens (cur @ [c]) cs)"

text \<open>
  The tree that \<^verbatim>\<open>cheerio.load\<close> returns: elements with a tag name, attributes and
  children, text nodes and comments. A document is the list of the root's children.
  The HTML parser is the library's; the model starts from its result. The query
  functions \<^verbatim>\<open>$\<close>, \<^verbatim>\<open>.find\<close>, \<^verbatim>\<open>.first\<close> and \<^verbatim>\<open>.text\<close> are the library's as well; the
  definitions below give their documented results on this tree, for the selectors that
  the program uses.
\<close>

datatype node =
    Element (tagName: js_string) (attribs: "(js_string \<times> js_string) list") (children: "node list")
  | Text js_string
  | Comment js_string

type_synonym document = "node list"

text \<open>
  A node is identified by its position, the list of child indices from the root. A
  selection (a cheerio object) is a list of elements with their positions.
\<close>

type_synonym path = "nat list"
type_synonym selection = "(path \<times> node) list"

fun elements_of :: "path \<Rightarrow> node \<Rightarrow> selection"
  and elements_of_list :: "path \<Rightarrow> nat \<Rightarrow> node list \<Rightarrow> selection" where
  "elements_of p (Element t a cs) = (p, Element t a cs) # elements_of_list p 0 cs"
| "elements_of p (Text d) = []"
| "elements_of p (Comment d) = []"
| "elements_of_list p i [] = []"
| "elements_of_list p i (c # cs) = elements_of (p @ [i]) c @ elements_of_list p (Suc i) cs"

text \<open>All elements of the document, in document order.\<close>

definition all_elements :: "document \<Rightarrow> selection" where
  "all_elements doc = elements_of_list [] 0 doc"

text \<open>
  The selectors the program uses: a tag (\<^verbatim>\<open>h1\<close>), a class (\<^verbatim>\<open>.subtitle\<close>), a tag with a
  class (\<^verbatim>\<open>h1.post-title\<close>), and a tag with an attribute that contains a substring
  (\<^verbatim>\<open>meta[content*="substack"]\<close>). A selector is a comma-separated list of these. An
  element has a class when the class is one of the white-space separated tokens of its
  \<^verbatim>\<open>class\<close> attribute; the substring test on an attribute value is case-sensitive.
\<close>

datatype simple_selector =
    Tag js_string
  | Class js_string
  | TagClass js_string js_string
  | TagAttrContains js_string js_string js_string

type_synonym selector = "simple_selector list"

definition attr :: "node \<Rightarrow> js_string \<Rightarrow> js_string option" where
  "attr e name = map_of (attribs e) name"

definition has_class :: "js_string \<Rightarrow> node \<Rightarrow> bool" where
  "has_class cls e =
     (case attr e (str ''class'') of None \<Rightarrow> False | Some v \<Rightarrow> cls \<in> set (tokens [] v))"

fun matches_simple :: "simple_selector \<Rightarrow> node \<Rightarrow> bool" where
  "matches_simple (Tag t) e = (tagName e = t)"
| "matches_simple (Class c) e = has_class c e"
| "matches_simple (TagClass t c) e = (tagName e = t \<and> has_class c e)"
| "matches_simple (TagAttrContains t a v) e =
     (tagName e = t \<and> (case attr e a of None \<Rightarrow> False | Some x \<Rightarrow> v \<noteq> [] \<and> js_includes x v))"

definition matches :: "selector \<Rightarrow> node \<Rightarrow> bool" where
  "matches sel e = (\<exists>s \<in> set sel. matches_simple s e)"

text \<open>\<^verbatim>\<open>$(selector)\<close>: the elements of the document that match, in document order.\<close>

definition select :: "document \<Rightarrow> selector \<Rightarrow> selection" where
  "select doc sel = filter (\<lambda>(p, e). matches sel e) (all_elements doc)"

text \<open>
  \<^verbatim>\<open>.find(selector)\<close>: the matching elements that lie strictly below an element of the
  selection, each once, in document order.
\<close>

definition find_in :: "document \<Rightarrow> selection \<Rightarrow> selector \<Rightarrow> selection" where
  "find_in doc S sel =
     filter (\<lambda>(p, e). matches sel e \<and> (\<exists>(q, c) \<in> set S. strict_prefix q p)) (all_elements doc)"

text \<open>\<^verbatim>\<open>.first()\<close>: the selection reduced to its first element.\<close>

definition first :: "selection \<Rightarrow> selection" where
  "first S = take 1 S"

text \<open>
  The text of a node: the data of its text nodes in document order; comments contribute
  nothing. \<^verbatim>\<open>.text()\<close> of a selection concatenates the texts of all its elements.
\<close>

fun textContent :: "node \<Rightarrow> js_string" where
  "textContent (Element t a cs) = concat (map textContent cs)"
| "textContent (Text d) = d"
| "textContent (Comment d) = []"

definition text_of :: "selection \<Rightarrow> js_string" where
  "text_of S = concat (map (\<lambda>(p, e). textContent e) S)"

section \<open>The request handler\<close>

text \<open>
  The source file holds the handler twice. The second copy logs more, has shorter failure
  texts and formats a caught error with \<^verbatim>\<open>err.message\<close>; its control flow, queries and
  success text are those of the first copy, which is the one modelled here.
\<close>

record content_block =
  block_type :: js_string
  block_text :: js_string

text \<open>The returned object; \<open>isError = None\<close> is a result without that property.\<close>

record tool_result =
  content :: "content_block list"
  isError :: "bool option"

record tool_arguments =
  url :: js_string

text \<open>\<^verbatim>\<open>request.params\<close>: the tool name and the arguments, which may be absent.\<close>

record request =
  name :: js_string
  arguments :: "tool_arguments option"

text \<open>The response of \<^verbatim>\<open>fetch\<close>: its status and the outcome of \<^verbatim>\<open>response.text()\<close>.\<close>

record response =
  status :: nat
  body_text :: "js_error + js_string"

text \<open>
  What the handler calls outside the program: the URL parser, \<^verbatim>\<open>fetch\<close>, and the HTML
  parser \<^verbatim>\<open>cheerio.load\<close>.
\<close>

record env =
  parse_url :: url_parser
  fetch :: "js_string \<Rightarrow> js_error + response"
  load :: "js_string \<Rightarrow> document"

text \<open>\<^verbatim>\<open>a || b\<close> on strings: the empty string is the only falsy one.\<close>

definition or_else :: "js_string \<Rightarrow> js_string \<Rightarrow> js_string" where
  "or_else a b = (if a \<noteq> [] then a else b)"

text \<open>\<^verbatim>\<open>`${err}`\<close> for an error object, that is \<^verbatim>\<open>Error.prototype.toString\<close>.\<close>

definition error_toString :: "js_error \<Rightarrow> js_string" where
  "error_toString e =
     (if err_name e = [] then err_message e
      else if err_message e = [] then err_name e
      else err_name e @ str '': '' @ err_message e)"

definition text_result :: "js_string \<Rightarrow> bool option \<Rightarrow> tool_result" where
  "text_result t flag =
     \<lparr>content = [\<lparr>block_type = str ''text'', block_text = t\<rparr>], isError = flag\<rparr>"

definition invalid_url_result :: tool_result where
  "invalid_url_result =
     text_result (str ''Invalid URL format. Please provide a valid Substack post URL. This could be either a substack.com domain or a custom domain with a Substack post structure.'')
       (Some True)"

definition not_substack_result :: tool_result where
  "not_substack_result =
     text_result (str ''This URL doesn't appear to be a Substack post. Please ensure you're providing a valid Substack article URL.'')
       (Some True)"

definition subscriber_only_result :: tool_result where
  "subscriber_only_result =
     text_result (str ''This appears to be a subscriber-only post. I cannot access the full content.'')
       (Some True)"

definition error_result :: "js_error \<Rightarrow> tool_result" where
  "error_result err =
     text_result (str ''Error processing Substack post: '' @ error_toString err) (Some True)"

definition success_result :: "js_string \<Rightarrow> js_string \<Rightarrow> js_string \<Rightarrow> js_string \<Rightarrow> tool_result" where
  "success_result title author subtitle body =
     text_result
       (str ''Title: '' @ title @ str ''\<newline>Author: '' @ author @
        str ''\<newline>Subtitle: '' @ subtitle @ str ''\<newline>\<newline>'' @ body)
       None"

text \<open>The four marker queries and their disjunction.\<close>

definition hasSubstackMarkers :: "document \<Rightarrow> bool" where
  "hasSubstackMarkers doc =
     (length (select doc [TagAttrContains (str ''meta'') (str ''content'') (str ''substack'')]) > 0 \<or>
      length (select doc [TagAttrContains (str ''script'') (str ''src'') (str ''substack'')]) > 0 \<or>
      length (select doc [Class (str ''post-content'')]) > 0 \<or>
      length (select doc [Class (str ''subscriber-only'')]) > 0)"

definition title_of :: "document \<Rightarrow> js_string" where
  "title_of doc =
     or_else (trim (text_of (first (select doc [Tag (str ''h1'')]))))
             (trim (text_of (select doc [TagClass (str ''h1'') (str ''post-title'')])))"

definition subtitle_of :: "document \<Rightarrow> js_string" where
  "subtitle_of doc = trim (text_of (select doc [Class (str ''subtitle'')]))"

definition author_of :: "document \<Rightarrow> js_string" where
  "author_of doc =
     or_else (trim (text_of (select doc [Class (str ''author-name'')])))
             (trim (text_of (select doc [TagClass (str ''a'') (str ''subscriber-only'')])))"

text \<open>
  The \<^verbatim>\<open>each\<close> loop: for every found element, in order, its trimmed text and two newlines
  are appended to the accumulator.
\<close>

definition content_of :: "document \<Rightarrow> js_string" where
  "content_of doc =
     foldl (\<lambda>acc el. acc @ (trim (text_of [el]) @ str ''\<newline>\<newline>'')) []
       (find_in doc
          (select doc [Class (str ''post-content''), Tag (str ''article''), Class (str ''body'')])
          [Tag (str ''p''), Tag (str ''h2''), Tag (str ''h3'')])"

text \<open>The handler from the marker check to the success result, on the loaded document.\<close>

definition process_document :: "document \<Rightarrow> tool_result" where
  "process_document doc =
     (if \<not> hasSubstackMarkers doc then not_substack_result
      else
        let title = title_of doc;
            subtitle = subtitle_of doc;
            author = author_of doc;
            body = content_of doc
        in if body = [] then subscriber_only_result
           else success_result title author subtitle body)"

text \<open>
  The \<^verbatim>\<open>try\<close> block of the handler. Destructuring absent arguments throws a
  \<^verbatim>\<open>TypeError\<close> (with the message of the V8 engine); \<^verbatim>\<open>fetch\<close> and \<^verbatim>\<open>response.text()\<close> can
  throw. The argument \<^verbatim>\<open>url\<close> is a string, as the tool's input schema requires. The calls
  of \<^verbatim>\<open>debug\<close> are left out.
\<close>

definition handler_try :: "env \<Rightarrow> request \<Rightarrow> js_error + tool_result" where
  "handler_try env req =
     (case arguments req of
        None \<Rightarrow>
          Inl (JsError (str ''TypeError'')
                 (str ''Cannot destructure property 'url' of 'request.params.arguments' as it is undefined.''))
      | Some args \<Rightarrow>
          (case validateUrl (parse_url env) (url args) of
             Inl e \<Rightarrow> Inl e
           | Inr valid \<Rightarrow>
               if \<not> valid then Inr invalid_url_result
               else
                 (case fetch env (url args) of
                    Inl e \<Rightarrow> Inl e
                  | Inr response \<Rightarrow>
                      (case body_text response of
                         Inl e \<Rightarrow> Inl e
                       | Inr html \<Rightarrow> Inr (process_document (load env html))))))"

text \<open>
  The handler: an unknown tool name throws before the \<^verbatim>\<open>try\<close> block, so that error
  reaches the caller; every error thrown inside the block becomes a result.
\<close>

definition handler :: "env \<Rightarrow> request \<Rightarrow> js_error + tool_result" where
  "handler env req =
     (if name req \<noteq> str ''download_substack''
      then Inl (JsError (str ''Error'') (str ''Unknown tool: '' @ name req))
      else
        (case handler_try env req of
           Inl err \<Rightarrow> Inr (error_result err)
         | Inr r \<Rightarrow> Inr r))"

section \<open>The diagnostic log and the pass after the fetch\<close>

text \<open>
  \<^verbatim>\<open>debug\<close> (lines 9 to 12) reads the clock with \<^verbatim>\<open>new Date()\<close> and writes one line to the
  standard error stream. The world of a call is what these two effects touch: the clock,
  given as the time that the n-th reading returns together with the number of readings
  made so far, and the lines written so far. A written line is kept as its three parts,
  the timestamp, the message and the arguments, and not as the rendered string.
\<close>

datatype js_value = StringValue js_string | NumberValue nat

record log_line =
  log_time :: nat
  log_message :: js_string
  log_args :: "js_value list"

record world =
  clock :: "nat \<Rightarrow> nat"
  reads :: nat
  stderr :: "log_line list"

definition debug :: "js_string \<Rightarrow> js_value list \<Rightarrow> world \<Rightarrow> world" where
  "debug message args w =
     (let timestamp = clock w (reads w)
      in w\<lparr>reads := Suc (reads w),
           stderr := stderr w @
             [\<lparr>log_time = timestamp, log_message = message, log_args = args\<rparr>]\<rparr>)"

text \<open>
  Lines 96 to 151 with their effects: the page is parsed, the markers are checked, the
  four fields are extracted, and the result is built; every \<^verbatim>\<open>debug\<close> call of these lines
  changes the world. The accumulator of the \<^verbatim>\<open>each\<close> loop is a local variable that starts
  empty in every call, so it is not part of the world.
\<close>

definition extraction_pass :: "env \<Rightarrow> js_string \<Rightarrow> world \<Rightarrow> tool_result \<times> world" where
  "extraction_pass env html w0 =
     (let doc = load env html
      in if \<not> hasSubstackMarkers doc
         then (not_substack_result, debug (str ''No Substack markers found in page'') [] w0)
         else
           let title = title_of doc;
               w1 = debug (str ''Found title:'') [StringValue title] w0;
               subtitle = subtitle_of doc;
               author = author_of doc;
               w2 = debug (str ''Found author:'') [StringValue author] w1;
               body = content_of doc;
               w3 = debug (str ''Extracted content length:'') [NumberValue (length body)] w2
           in if body = []
              then (subscriber_only_result,
                    debug (str ''No content found - might be subscriber-only'') [] w3)
              else (success_result title author subtitle body,
                    debug (str ''Successfully processed article'') [] w3))"

text \<open>What a call wrote, without the timestamps: the lines added to the log of \<open>w\<close>.\<close>

definition written :: "world \<Rightarrow> world \<Rightarrow> (js_string \<times> js_value list) list" where
  "written w w' = map (\<lambda>l. (log_message l, log_args l)) (drop (length (stderr w)) (stderr w'))"

section \<open>Specification predicates\<close>

text \<open>The two admissibility conditions in the words of the specification.\<close>

definition host_ends_with_substack :: "js_string \<Rightarrow> bool" where
  "host_ends_with_substack h = (\<exists>pre. h = pre @ str ''.substack.com'')"

definition path_is_post :: "js_string \<Rightarrow> bool" where
  "path_is_post p =
     (\<exists>slug rest. p = str ''/p/'' @ slug @ rest \<and> slug \<noteq> [] \<and> (\<forall>c \<in> set slug. is_word_or_hyphen c))"

text \<open>
  The nodes of a tree: the node itself and everything below it. The elements of a
  document are the element nodes of its trees; the descendants of an element are the
  nodes of its children's trees.
\<close>

fun subnodes :: "node \<Rightarrow> node set" where
  "subnodes (Element t a cs) = insert (Element t a cs) (\<Union>c \<in> set cs. subnodes c)"
| "subnodes (Text d) = {Text d}"
| "subnodes (Comment d) = {Comment d}"

definition doc_elements :: "document \<Rightarrow> node set" where
  "doc_elements doc = {e \<in> (\<Union>n \<in> set doc. subnodes n). is_Element e}"

definition descendant_elements :: "node \<Rightarrow> node set" where
  "descendant_elements c = {e \<in> (\<Union>n \<in> set (children c). subnodes n). is_Element e}"

definition contains_substring :: "js_string \<Rightarrow> js_string \<Rightarrow> bool" where
  "contains_substring s t = (\<exists>pre post. s = pre @ t @ post)"

text \<open>The four structural markers of the specification.\<close>

definition is_substack_meta :: "node \<Rightarrow> bool" where
  "is_substack_meta e =
     (tagName e = str ''meta'' \<and>
      (\<exists>v. attr e (str ''content'') = Some v \<and> contains_substring v (str ''substack'')))"

definition is_substack_script :: "node \<Rightarrow> bool" where
  "is_substack_script e =
     (tagName e = str ''script'' \<and>
      (\<exists>v. attr e (str ''src'') = Some v \<and> contains_substring v (str ''substack'')))"

definition has_marker :: "document \<Rightarrow> bool" where
  "has_marker doc =
     (\<exists>e \<in> doc_elements doc.
        is_substack_meta e \<or> is_substack_script e \<or>
        has_class (str ''post-content'') e \<or> has_class (str ''subscriber-only'') e)"

text \<open>
  The containers of the body (class \<^verbatim>\<open>post-content\<close>, tag \<^verbatim>\<open>article\<close>, class \<^verbatim>\<open>body\<close>), the
  paragraph and heading elements (\<^verbatim>\<open>p\<close>, \<^verbatim>\<open>h2\<close>, \<^verbatim>\<open>h3\<close>), and the paragraph and heading
  elements that lie inside some container of the document.
\<close>

definition is_container :: "node \<Rightarrow> bool" where
  "is_container e =
     (has_class (str ''post-content'') e \<or> tagName e = str ''article'' \<or> has_class (str ''body'') e)"

definition is_text_block :: "node \<Rightarrow> bool" where
  "is_text_block e = (tagName e = str ''p'' \<or> tagName e = str ''h2'' \<or> tagName e = str ''h3'')"

definition container_blocks :: "document \<Rightarrow> node set" where
  "container_blocks doc =
     {b. \<exists>c \<in> doc_elements doc. is_container c \<and> b \<in> descendant_elements c \<and> is_text_block b}"

text \<open>The node at a position below a node, and at a position of the document.\<close>

fun lookup :: "node \<Rightarrow> path \<Rightarrow> node option" where
  "lookup n [] = Some n"
| "lookup (Element t a cs) (i # p) = (if i < length cs then lookup (cs ! i) p else None)"
| "lookup (Text d) (i # p) = None"
| "lookup (Comment d) (i # p) = None"

fun doc_lookup :: "document \<Rightarrow> path \<Rightarrow> node option" where
  "doc_lookup doc [] = None"
| "doc_lookup doc (i # p) = (if i < length doc then lookup (doc ! i) p else None)"

text \<open>
  The subtitle in the words of the specification: the trimmed text of the first element
  with class \<^verbatim>\<open>subtitle\<close>, and the empty string when there is none.
\<close>

definition first_subtitle_text :: "document \<Rightarrow> js_string" where
  "first_subtitle_text doc =
     (case select doc [Class (str ''subtitle'')] of
        [] \<Rightarrow> []
      | (p, e) # rest \<Rightarrow> trim (textContent e))"

text \<open>
  The condition of the specification's paywall property, in its words: the paragraphs and
  headings inside the containers yield no text.
\<close>

definition containers_yield_no_text :: "document \<Rightarrow> bool" where
  "containers_yield_no_text doc = (\<forall>b \<in> container_blocks doc. trim (textContent b) = [])"

section \<open>Sample inputs\<close>

text \<open>
  A URL parser given by a table: the result of \<^verbatim>\<open>new URL\<close> on the sample URLs used below,
  and the \<^verbatim>\<open>TypeError\<close> it throws on every other string.
\<close>

definition sample_parser :: url_parser where
  "sample_parser u =
     (if u = str ''https://foo.substack.com/p/my-post''
        then Inr \<lparr>hostname = str ''foo.substack.com'', pathname = str ''/p/my-post''\<rparr>
      else if u = str ''https://example.com/about''
        then Inr \<lparr>hostname = str ''example.com'', pathname = str ''/about''\<rparr>
      else if u = str ''https://substack.com/about''
        then Inr \<lparr>hostname = str ''substack.com'', pathname = str ''/about''\<rparr>
      else if u = str ''https://evilsubstack.com/about''
        then Inr \<lparr>hostname = str ''evilsubstack.com'', pathname = str ''/about''\<rparr>
      else Inl (JsError (str ''TypeError'') (str ''Invalid URL'')))"

text \<open>
  The document of the first scenario of the specification, as the HTML parser returns it:
  the \<^verbatim>\<open>meta\<close> element in the head, the heading and the post container in the body.
\<close>

definition scenario1_html :: js_string where
  \<open>scenario1_html =
     str ''<meta content="substack"><h1>My Title</h1><div class="post-content"><p>Hello</p></div>''\<close>

definition scenario1_doc :: document where
  "scenario1_doc =
     [Element (str ''html'') []
        [Element (str ''head'') []
           [Element (str ''meta'') [(str ''content'', str ''substack'')] []],
         Element (str ''body'') []
           [Element (str ''h1'') [] [Text (str ''My Title'')],
            Element (str ''div'') [(str ''class'', str ''post-content'')]
              [Element (str ''p'') [] [Text (str ''Hello'')]]]]]"

text \<open>The document that the parser returns for an empty page.\<close>

definition empty_page_doc :: document where
  "empty_page_doc =
     [Element (str ''html'') [] [Element (str ''head'') [] [], Element (str ''body'') [] []]]"

text \<open>
  An environment given by tables: the sample parser, a \<^verbatim>\<open>fetch\<close> that answers the scenario's
  URL with the scenario's page and refuses every other connection, and the parse of the
  scenario's page.
\<close>

definition sample_env :: env where
  "sample_env =
     \<lparr>parse_url = sample_parser,
      fetch = (\<lambda>u. if u = str ''https://foo.substack.com/p/my-post''
                    then Inr \<lparr>status = 200, body_text = Inr scenario1_html\<rparr>
                    else Inl (JsError (str ''FetchError'') (str ''connect ECONNREFUSED''))),
      load = (\<lambda>html. if html = scenario1_html then scenario1_doc else empty_page_doc)\<rparr>"

definition scenario1_request :: request where
  "scenario1_request =
     \<lparr>name = str ''download_substack'',
      arguments = Some \<lparr>url = str ''https://foo.substack.com/p/my-post''\<rparr>\<rparr>"

text \<open>
  The page of scenario 3: a title, and a post container that holds only a subscriber
  banner, no paragraph and no heading.
\<close>

definition paywalled_doc :: document where
  "paywalled_doc =
     [Element (str ''html'') []
        [Element (str ''head'') [] [],
         Element (str ''body'') []
           [Element (str ''h1'') [] [Text (str ''Locked Post'')],
            Element (str ''div'') [(str ''class'', str ''post-content'')]
              [Element (str ''div'') [(str ''class'', str ''subscriber-only'')]
                 [Text (str ''Subscribe to read'')]]]]]"

text \<open>A page with two elements of class \<^verbatim>\<open>subtitle\<close>.\<close>

definition two_subtitles_doc :: document where
  "two_subtitles_doc =
     [Element (str ''html'') []
        [Element (str ''head'') [] [],
         Element (str ''body'') []
           [Element (str ''h1'') [] [Text (str ''My Title'')],
            Element (str ''h3'') [(str ''class'', str ''subtitle'')] [Text (str ''One'')],
            Element (str ''div'') [(str ''class'', str ''subtitle'')] [Text (str ''Two'')],
            Element (str ''div'') [(str ''class'', str ''post-content'')]
              [Element (str ''p'') [] [Text (str ''Hello'')]]]]]"

text \<open>A page with one element of class \<^verbatim>\<open>subtitle\<close>, its text padded with spaces.\<close>

definition subtitled_doc :: document where
  "subtitled_doc =
     [Element (str ''html'') []
        [Element (str ''head'') [] [],
         Element (str ''body'') []
           [Element (str ''h1'') [] [Text (str ''My Title'')],
            Element (str ''h3'') [(str ''class'', str ''subtitle'')] [Text (str '' A subtitle '')],
            Element (str ''div'') [(str ''class'', str ''post-content'')]
              [Element (str ''p'') [] [Text (str ''Hello'')]]]]]"

text \<open>
  A page with a marker whose post container holds a paragraph of blanks and an empty
  heading.
\<close>

definition blank_paragraphs_doc :: document where
  "blank_paragraphs_doc =
     [Element (str ''html'') []
        [Element (str ''head'') []
           [Element (str ''meta'') [(str ''content'', str ''substack'')] []],
         Element (str ''body'') []
           [Element (str ''h1'') [] [Text (str ''Blank'')],
            Element (str ''div'') [(str ''class'', str ''post-content'')]
              [Element (str ''p'') [] [Text (str ''   '')],
               Element (str ''h2'') [] []]]]]"

text \<open>Two worlds: different clocks, different numbers of readings, different logs.\<close>

definition morning_world :: world where
  "morning_world = \<lparr>clock = (\<lambda>n. 1000 + n), reads = 0, stderr = []\<rparr>"

definition evening_world :: world where
  "evening_world =
     \<lparr>clock = (\<lambda>n. 90000 + 5 * n), reads = 3,
      stderr = [\<lparr>log_time = 89990, log_message = str ''Starting server...'', log_args = []\<rparr>]\<rparr>"

section \<open>URL admissibility\<close>

lemma length_str [simp]: "length (str s) = length s"
  by (simp add: str_def)

lemma endsWith_iff: "endsWith s t = (\<exists>pre. s = pre @ t)"
proof
  assume "endsWith s t"
  then have le: "length t \<le> length s" and eq: "take (length t) (drop (length s - length t) s) = t"
    by (auto simp: endsWith_def Let_def split: if_splits)
  from le have "drop (length s - length t) s = t"
    using eq by simp
  then have "s = take (length s - length t) s @ t"
    by (metis append_take_drop_id)
  then show "\<exists>pre. s = pre @ t" ..
next
  assume "\<exists>pre. s = pre @ t"
  then show "endsWith s t"
    by (auto simp: endsWith_def Let_def)
qed

lemma post_path_test_iff: "post_path_test p = path_is_post p"
proof
  assume t: "post_path_test p"
  let ?w = "takeWhile is_word_or_hyphen (drop 3 p)"
  let ?r = "dropWhile is_word_or_hyphen (drop 3 p)"
  from t have "take 3 p = str ''/p/''" and ne: "?w \<noteq> []"
    by (simp_all add: post_path_test_def)
  then have "p = str ''/p/'' @ ?w @ ?r"
    by (metis append_take_drop_id takeWhile_dropWhile_id)
  moreover have "\<forall>c \<in> set ?w. is_word_or_hyphen c"
    by (auto dest: set_takeWhileD)
  ultimately show "path_is_post p"
    unfolding path_is_post_def using ne by blast
next
  assume "path_is_post p"
  then obtain slug rest where p: "p = str ''/p/'' @ slug @ rest" and ne: "slug \<noteq> []"
    and all: "\<forall>c \<in> set slug. is_word_or_hyphen c"
    unfolding path_is_post_def by blast
  from ne obtain c cs where slug: "slug = c # cs" by (cases slug) auto
  with all have "is_word_or_hyphen c" by simp
  with p slug show "post_path_test p"
    by (simp add: post_path_test_def)
qed

lemma validateUrl_parsed:
  "parse u = Inr parsed \<Longrightarrow>
   validateUrl parse u =
     Inr (host_ends_with_substack (hostname parsed) \<or> path_is_post (pathname parsed))"
  by (simp add: validateUrl_def validateUrl_try_def Let_def endsWith_iff
      post_path_test_iff host_ends_with_substack_def)

text \<open>
  C1. For a string that the URL parser accepts, \<open>validateUrl\<close> returns \<open>true\<close> if and only
  if the host ends with \<^verbatim>\<open>.substack.com\<close> or the path starts with \<^verbatim>\<open>/p/\<close> followed by one or
  more word characters or hyphens. In particular a host with that suffix is enough
  whatever the path is, and a path of that form is enough whatever the host is.
\<close>

theorem validateUrl_admissible_iff:
  assumes "parse u = Inr parsed"
  shows "(validateUrl parse u = Inr True \<longleftrightarrow>
            host_ends_with_substack (hostname parsed) \<or> path_is_post (pathname parsed))
       \<and> (host_ends_with_substack (hostname parsed) \<longrightarrow> validateUrl parse u = Inr True)
       \<and> (path_is_post (pathname parsed) \<longrightarrow> validateUrl parse u = Inr True)"
  using validateUrl_parsed [of parse u parsed] assms by auto

theorem validateUrl_admissible_iff_witness:
  "sample_parser (str ''https://foo.substack.com/p/my-post'') =
     Inr \<lparr>hostname = str ''foo.substack.com'', pathname = str ''/p/my-post''\<rparr>
   \<and> host_ends_with_substack (str ''foo.substack.com'')
   \<and> path_is_post (str ''/p/my-post'')
   \<and> validateUrl sample_parser (str ''https://foo.substack.com/p/my-post'') = Inr True"
proof -
  have p: "sample_parser (str ''https://foo.substack.com/p/my-post'') =
      Inr \<lparr>hostname = str ''foo.substack.com'', pathname = str ''/p/my-post''\<rparr>"
    by (simp add: sample_parser_def)
  have h: "host_ends_with_substack (str ''foo.substack.com'')"
    unfolding host_ends_with_substack_def
    by (rule exI [of _ "str ''foo''"]) (simp add: str_def)
  have q: "path_is_post (str ''/p/my-post'')"
    unfolding post_path_test_iff [symmetric]
    by (simp add: post_path_test_def str_def is_word_or_hyphen_def is_word_char_def)
  from validateUrl_admissible_iff
      [of sample_parser "str ''https://foo.substack.com/p/my-post''"
          "\<lparr>hostname = str ''foo.substack.com'', pathname = str ''/p/my-post''\<rparr>"]
    p h q
  show ?thesis by simp
qed

text \<open>
  C5. For a string that the URL parser rejects, \<open>validateUrl\<close> returns \<open>false\<close>; the result is
  a returned value (\<open>Inr\<close>), not a thrown error.
\<close>

theorem validateUrl_unparseable_false:
  assumes "parse u = Inl e"
  shows "validateUrl parse u = Inr False"
  using assms by (simp add: validateUrl_def validateUrl_try_def)

theorem validateUrl_unparseable_false_witness:
  "sample_parser (str ''not a url'') = Inl (JsError (str ''TypeError'') (str ''Invalid URL''))
   \<and> validateUrl sample_parser (str ''not a url'') = Inr False"
proof -
  have p: "sample_parser (str ''not a url'') = Inl (JsError (str ''TypeError'') (str ''Invalid URL''))"
    by (simp add: sample_parser_def str_def)
  from validateUrl_unparseable_false
      [of sample_parser "str ''not a url''" "JsError (str ''TypeError'') (str ''Invalid URL'')"] p
  show ?thesis by simp
qed

text \<open>
  C9. The host rule needs the leading dot. For a parsed URL whose host is exactly
  \<^verbatim>\<open>substack.com\<close>, or ends with \<^verbatim>\<open>substack.com\<close> but not with \<^verbatim>\<open>.substack.com\<close>, the result of
  \<open>validateUrl\<close> is decided by the path rule alone: it is \<open>false\<close> unless the path has the
  \<^verbatim>\<open>/p/\<close> form. A host is admissible by itself only when it has the dotted suffix.
\<close>

theorem validateUrl_host_needs_dot:
  assumes "parse u = Inr parsed"
  shows "((hostname parsed = str ''substack.com'' \<or>
           ((\<exists>pre. hostname parsed = pre @ str ''substack.com'') \<and>
            \<not> host_ends_with_substack (hostname parsed)))
          \<longrightarrow> validateUrl parse u = Inr (path_is_post (pathname parsed)))
       \<and> (\<not> path_is_post (pathname parsed) \<longrightarrow>
            (validateUrl parse u = Inr True \<longleftrightarrow>
               (\<exists>pre. hostname parsed = pre @ str ''.substack.com'')))"
proof -
  have "\<not> host_ends_with_substack (str ''substack.com'')"
    unfolding endsWith_iff [symmetric] host_ends_with_substack_def
    by (simp add: endsWith_def)
  then show ?thesis
    using validateUrl_parsed [of parse u parsed] assms
    by (auto simp: host_ends_with_substack_def)
qed

theorem validateUrl_host_needs_dot_witness:
  "sample_parser (str ''https://substack.com/about'') =
     Inr \<lparr>hostname = str ''substack.com'', pathname = str ''/about''\<rparr>
   \<and> sample_parser (str ''https://evilsubstack.com/about'') =
     Inr \<lparr>hostname = str ''evilsubstack.com'', pathname = str ''/about''\<rparr>
   \<and> (\<exists>pre. str ''evilsubstack.com'' = pre @ str ''substack.com'')
   \<and> \<not> host_ends_with_substack (str ''evilsubstack.com'')
   \<and> \<not> path_is_post (str ''/about'')
   \<and> validateUrl sample_parser (str ''https://substack.com/about'') = Inr False
   \<and> validateUrl sample_parser (str ''https://evilsubstack.com/about'') = Inr False"
proof -
  have p: "sample_parser (str ''https://substack.com/about'') =
      Inr \<lparr>hostname = str ''substack.com'', pathname = str ''/about''\<rparr>"
    by (simp add: sample_parser_def str_def)
  have p': "sample_parser (str ''https://evilsubstack.com/about'') =
      Inr \<lparr>hostname = str ''evilsubstack.com'', pathname = str ''/about''\<rparr>"
    by (simp add: sample_parser_def str_def)
  have e: "\<exists>pre. str ''evilsubstack.com'' = pre @ str ''substack.com''"
    by (rule exI [of _ "str ''evil''"]) (simp add: str_def)
  have n: "\<not> host_ends_with_substack (str ''evilsubstack.com'')"
    unfolding endsWith_iff [symmetric] host_ends_with_substack_def
    by (simp add: endsWith_def str_def)
  have q: "\<not> path_is_post (str ''/about'')"
    unfolding post_path_test_iff [symmetric]
    by (simp add: post_path_test_def str_def)
  from validateUrl_host_needs_dot
      [of sample_parser "str ''https://substack.com/about''"
          "\<lparr>hostname = str ''substack.com'', pathname = str ''/about''\<rparr>"]
    validateUrl_host_needs_dot
      [of sample_parser "str ''https://evilsubstack.com/about''"
          "\<lparr>hostname = str ''evilsubstack.com'', pathname = str ''/about''\<rparr>"]
    p p' e n q
  show ?thesis by simp
qed

section \<open>Positions, elements and queries\<close>


lemma elements_of_sound:
  "(p, e) \<in> set (elements_of r n) \<Longrightarrow> \<exists>k. p = r @ k \<and> lookup n k = Some e \<and> is_Element e"
  "(p, e) \<in> set (elements_of_list r i cs) \<Longrightarrow>
     \<exists>j k. j < length cs \<and> p = r @ (i + j) # k \<and> lookup (cs ! j) k = Some e \<and> is_Element e"
proof (induction r n and r i cs rule: elements_of_elements_of_list.induct)
  case (1 r t a cs)
  from "1.prems" consider "p = r" "e = Element t a cs" | "(p, e) \<in> set (elements_of_list r 0 cs)"
    by auto
  then show ?case
  proof cases
    case 1
    then show ?thesis by (intro exI [of _ "[]"]) simp
  next
    case 2
    from "1.IH" [OF 2] obtain j k where "j < length cs" "p = r @ j # k"
      "lookup (cs ! j) k = Some e" "is_Element e" by auto
    then show ?thesis by (intro exI [of _ "j # k"]) simp
  qed
next
  case (5 r i c cs)
  from "5.prems" consider "(p, e) \<in> set (elements_of (r @ [i]) c)"
    | "(p, e) \<in> set (elements_of_list r (Suc i) cs)"
    by auto
  then show ?case
  proof cases
    case 1
    from "5.IH"(1) [OF 1] obtain k where "p = (r @ [i]) @ k" "lookup c k = Some e" "is_Element e"
      by auto
    then show ?thesis by (intro exI [of _ 0] exI [of _ k]) simp
  next
    case 2
    from "5.IH"(2) [OF 2] obtain j k where "j < length cs" "p = r @ (Suc i + j) # k"
      "lookup (cs ! j) k = Some e" "is_Element e" by auto
    then show ?thesis by (intro exI [of _ "Suc j"] exI [of _ k]) simp
  qed
qed simp_all

lemma elements_of_complete:
  "lookup n k = Some e \<Longrightarrow> is_Element e \<Longrightarrow> (r @ k, e) \<in> set (elements_of r n)"
  "j < length cs \<Longrightarrow> lookup (cs ! j) k = Some e \<Longrightarrow> is_Element e \<Longrightarrow>
     (r @ (i + j) # k, e) \<in> set (elements_of_list r i cs)"
proof (induction r n and r i cs arbitrary: k and j k rule: elements_of_elements_of_list.induct)
  case (1 r t a cs)
  show ?case
  proof (cases k)
    case Nil
    with "1.prems" have "e = Element t a cs" by simp
    with Nil show ?thesis by simp
  next
    case (Cons j k')
    with "1.prems" have "j < length cs" "lookup (cs ! j) k' = Some e"
      by (auto split: if_splits)
    from "1.IH" [OF this "1.prems"(2)] Cons show ?thesis by simp
  qed
next
  case (2 r d)
  then show ?case by (cases k) auto
next
  case (3 r d)
  then show ?case by (cases k) auto
next
  case (4 r i)
  then show ?case by simp
next
  case (5 r i c cs)
  show ?case
  proof (cases j)
    case 0
    with "5.prems" have "lookup c k = Some e" by simp
    from "5.IH"(1) [OF this "5.prems"(3)] 0 show ?thesis by simp
  next
    case (Suc j')
    with "5.prems" have "j' < length cs" "lookup (cs ! j') k = Some e" by simp_all
    from "5.IH"(2) [OF this "5.prems"(3)] Suc show ?thesis by simp
  qed
qed

lemma all_elements_iff:
  "(p, e) \<in> set (all_elements doc) \<longleftrightarrow> doc_lookup doc p = Some e \<and> is_Element e"
proof
  assume "(p, e) \<in> set (all_elements doc)"
  from elements_of_sound(2) [OF this [unfolded all_elements_def]]
  show "doc_lookup doc p = Some e \<and> is_Element e" by auto
next
  assume a: "doc_lookup doc p = Some e \<and> is_Element e"
  then obtain j k where p: "p = j # k" by (cases p) auto
  with a have "j < length doc" "lookup (doc ! j) k = Some e" "is_Element e"
    by (auto split: if_splits)
  from elements_of_complete(2) [OF this, of "[]" 0] p
  show "(p, e) \<in> set (all_elements doc)" by (simp add: all_elements_def)
qed

lemma lookup_append:
  "lookup n (a @ b) = (case lookup n a of None \<Rightarrow> None | Some m \<Rightarrow> lookup m b)"
proof (induction a arbitrary: n)
  case Nil
  show ?case by simp
next
  case (Cons i a)
  show ?case by (cases n) (simp_all add: Cons.IH)
qed

lemma lookup_subnodes: "(\<exists>k. lookup n k = Some e) \<longleftrightarrow> e \<in> subnodes n"
proof
  assume "\<exists>k. lookup n k = Some e"
  then obtain k where "lookup n k = Some e" ..
  then show "e \<in> subnodes n"
  proof (induction k arbitrary: n)
    case Nil
    then show ?case by (cases n) auto
  next
    case (Cons i k)
    show ?case
    proof (cases n)
      case (Element t a cs)
      with Cons.prems have i: "i < length cs" and "lookup (cs ! i) k = Some e"
        by (auto split: if_splits)
      from Cons.IH [OF this(2)] have "e \<in> subnodes (cs ! i)" .
      with i Element show ?thesis by (auto intro: bexI [of _ "cs ! i"])
    qed (use Cons.prems in simp_all)
  qed
next
  assume "e \<in> subnodes n"
  then show "\<exists>k. lookup n k = Some e"
  proof (induction n)
    case (Element t a cs)
    from Element.prems consider "e = Element t a cs" | c where "c \<in> set cs" "e \<in> subnodes c"
      by auto
    then show ?case
    proof cases
      case 1
      then have "lookup (Element t a cs) [] = Some e" by simp
      then show ?thesis ..
    next
      case 2
      from Element.IH [OF 2] obtain k where k: "lookup c k = Some e" ..
      from 2(1) obtain i where "i < length cs" "cs ! i = c" by (auto simp: in_set_conv_nth)
      with k have "lookup (Element t a cs) (i # k) = Some e" by simp
      then show ?thesis ..
    qed
  next
    case (Text d)
    then have "lookup (Text d) [] = Some e" by simp
    then show ?case ..
  next
    case (Comment d)
    then have "lookup (Comment d) [] = Some e" by simp
    then show ?case ..
  qed
qed

lemma doc_elements_iff:
  "e \<in> doc_elements doc \<longleftrightarrow> (\<exists>p. (p, e) \<in> set (all_elements doc))"
proof -
  have "(\<exists>p. doc_lookup doc p = Some e) \<longleftrightarrow> (\<exists>n \<in> set doc. e \<in> subnodes n)"
  proof
    assume "\<exists>p. doc_lookup doc p = Some e"
    then obtain p where p: "doc_lookup doc p = Some e" ..
    then obtain j k where "p = j # k" by (cases p) auto
    with p have "j < length doc" "lookup (doc ! j) k = Some e" by (auto split: if_splits)
    then show "\<exists>n \<in> set doc. e \<in> subnodes n"
      using lookup_subnodes [of "doc ! j" e] by auto
  next
    assume "\<exists>n \<in> set doc. e \<in> subnodes n"
    then obtain n where n: "n \<in> set doc" "e \<in> subnodes n" by auto
    from n(2) lookup_subnodes [of n e] obtain k where k: "lookup n k = Some e" by auto
    from n(1) obtain i where "i < length doc" "doc ! i = n" by (auto simp: in_set_conv_nth)
    with k have "doc_lookup doc (i # k) = Some e" by simp
    then show "\<exists>p. doc_lookup doc p = Some e" ..
  qed
  then show ?thesis
    by (auto simp: doc_elements_def all_elements_iff)
qed

lemma descendant_elements_iff:
  "is_Element c \<Longrightarrow>
   e \<in> descendant_elements c \<longleftrightarrow> (\<exists>k. k \<noteq> [] \<and> lookup c k = Some e) \<and> is_Element e"
proof -
  assume "is_Element c"
  then obtain t a cs where c: "c = Element t a cs" by (cases c) auto
  have "(\<exists>k. k \<noteq> [] \<and> lookup c k = Some e) \<longleftrightarrow> (\<exists>n \<in> set cs. e \<in> subnodes n)"
  proof
    assume "\<exists>k. k \<noteq> [] \<and> lookup c k = Some e"
    then obtain k where k: "k \<noteq> []" "lookup c k = Some e" by auto
    then obtain j k' where "k = j # k'" by (cases k) auto
    with k c have "j < length cs" "lookup (cs ! j) k' = Some e" by (auto split: if_splits)
    then show "\<exists>n \<in> set cs. e \<in> subnodes n"
      using lookup_subnodes [of "cs ! j" e] by auto
  next
    assume "\<exists>n \<in> set cs. e \<in> subnodes n"
    then obtain n where n: "n \<in> set cs" "e \<in> subnodes n" by auto
    from n(2) lookup_subnodes [of n e] obtain k where k: "lookup n k = Some e" by auto
    from n(1) obtain i where "i < length cs" "cs ! i = n" by (auto simp: in_set_conv_nth)
    with k c have "i # k \<noteq> [] \<and> lookup c (i # k) = Some e" by simp
    then show "\<exists>k. k \<noteq> [] \<and> lookup c k = Some e" ..
  qed
  with c show ?thesis
    by (auto simp: descendant_elements_def)
qed

lemma doc_lookup_append:
  "q \<noteq> [] \<Longrightarrow>
   doc_lookup doc (q @ k) = (case doc_lookup doc q of None \<Rightarrow> None | Some m \<Rightarrow> lookup m k)"
  by (cases q) (simp_all add: lookup_append)

lemma select_nonempty_iff:
  "select doc sel \<noteq> [] \<longleftrightarrow> (\<exists>e \<in> doc_elements doc. matches sel e)"
proof -
  have "select doc sel \<noteq> [] \<longleftrightarrow> (\<exists>p e. (p, e) \<in> set (all_elements doc) \<and> matches sel e)"
    by (auto simp: select_def filter_empty_conv)
  also have "\<dots> \<longleftrightarrow> (\<exists>e \<in> doc_elements doc. matches sel e)"
    unfolding Bex_def doc_elements_iff by blast
  finally show ?thesis .
qed

lemma find_in_nonempty_iff:
  "find_in doc (select doc csel) bsel \<noteq> [] \<longleftrightarrow>
     (\<exists>c \<in> doc_elements doc. matches csel c \<and> (\<exists>b \<in> descendant_elements c. matches bsel b))"
proof
  assume "find_in doc (select doc csel) bsel \<noteq> []"
  then obtain p e q c where pe: "(p, e) \<in> set (all_elements doc)" and me: "matches bsel e"
    and qc: "(q, c) \<in> set (all_elements doc)" and mc: "matches csel c" and pre: "strict_prefix q p"
    by (auto simp: find_in_def select_def filter_empty_conv)
  from pre obtain k where p: "p = q @ k" and k: "k \<noteq> []"
    by (auto simp: strict_prefix_def prefix_def)
  from qc have q: "doc_lookup doc q = Some c" and c: "is_Element c"
    by (simp_all add: all_elements_iff)
  then have "q \<noteq> []" by (cases q) auto
  with pe p q have "lookup c k = Some e" and "is_Element e"
    by (simp_all add: all_elements_iff doc_lookup_append)
  with k c have "e \<in> descendant_elements c"
    by (auto simp: descendant_elements_iff)
  moreover from qc have "c \<in> doc_elements doc"
    by (auto simp: doc_elements_iff)
  ultimately show "\<exists>c \<in> doc_elements doc. matches csel c \<and> (\<exists>b \<in> descendant_elements c. matches bsel b)"
    using mc me by blast
next
  assume "\<exists>c \<in> doc_elements doc. matches csel c \<and> (\<exists>b \<in> descendant_elements c. matches bsel b)"
  then obtain c b where c: "c \<in> doc_elements doc" and mc: "matches csel c"
    and b: "b \<in> descendant_elements c" and mb: "matches bsel b"
    by blast
  from c obtain q where qc: "(q, c) \<in> set (all_elements doc)"
    by (auto simp: doc_elements_iff)
  then have q: "doc_lookup doc q = Some c" and ec: "is_Element c"
    by (simp_all add: all_elements_iff)
  then have qne: "q \<noteq> []" by (cases q) auto
  from b ec obtain k where k: "k \<noteq> []" and lk: "lookup c k = Some b" and eb: "is_Element b"
    by (auto simp: descendant_elements_iff)
  from q qne lk eb have "(q @ k, b) \<in> set (all_elements doc)"
    by (simp add: all_elements_iff doc_lookup_append)
  moreover from k have "strict_prefix q (q @ k)"
    by (simp add: strict_prefix_def)
  moreover from qc mc have "(q, c) \<in> set (select doc csel)"
    by (simp add: select_def)
  ultimately have "(q @ k, b) \<in> set (find_in doc (select doc csel) bsel)"
    using mb by (auto simp: find_in_def)
  then show "find_in doc (select doc csel) bsel \<noteq> []"
    by auto
qed

lemma js_includes_iff: "js_includes s t \<longleftrightarrow> contains_substring s t"
proof (induction s)
  case Nil
  show ?case by (auto simp: contains_substring_def)
next
  case (Cons c cs)
  show ?case
  proof
    assume "js_includes (c # cs) t"
    then consider "take (length t) (c # cs) = t" | "js_includes cs t" by auto
    then show "contains_substring (c # cs) t"
    proof cases
      case 1
      then have "c # cs = [] @ t @ drop (length t) (c # cs)"
        by (metis append_Nil append_take_drop_id)
      then show ?thesis unfolding contains_substring_def by blast
    next
      case 2
      with Cons.IH obtain pre post where "cs = pre @ t @ post"
        by (auto simp: contains_substring_def)
      then have "c # cs = (c # pre) @ t @ post" by simp
      then show ?thesis unfolding contains_substring_def by blast
    qed
  next
    assume "contains_substring (c # cs) t"
    then obtain pre post where eq: "c # cs = pre @ t @ post"
      by (auto simp: contains_substring_def)
    show "js_includes (c # cs) t"
    proof (cases pre)
      case Nil
      with eq have "take (length t) (c # cs) = t" by simp
      then show ?thesis by simp
    next
      case (Cons d pre')
      with eq have "cs = pre' @ t @ post" by simp
      then have "contains_substring cs t" unfolding contains_substring_def by blast
      with Cons.IH show ?thesis by simp
    qed
  qed
qed

lemma hasSubstackMarkers_iff: "hasSubstackMarkers doc = has_marker doc"
proof -
  have m: "matches [TagAttrContains (str ''meta'') (str ''content'') (str ''substack'')] e
      = is_substack_meta e" for e
    by (auto simp: matches_def is_substack_meta_def js_includes_iff str_def split: option.splits)
  have s: "matches [TagAttrContains (str ''script'') (str ''src'') (str ''substack'')] e
      = is_substack_script e" for e
    by (auto simp: matches_def is_substack_script_def js_includes_iff str_def split: option.splits)
  have c: "matches [Class x] e = has_class x e" for x e
    by (simp add: matches_def)
  have "hasSubstackMarkers doc \<longleftrightarrow>
      (\<exists>e \<in> doc_elements doc. is_substack_meta e) \<or> (\<exists>e \<in> doc_elements doc. is_substack_script e) \<or>
      (\<exists>e \<in> doc_elements doc. has_class (str ''post-content'') e) \<or>
      (\<exists>e \<in> doc_elements doc. has_class (str ''subscriber-only'') e)"
    unfolding hasSubstackMarkers_def length_greater_0_conv select_nonempty_iff m s c ..
  then show ?thesis
    unfolding has_marker_def by blast
qed

lemma foldl_append_empty_iff:
  "s \<noteq> [] \<Longrightarrow> foldl (\<lambda>acc el. acc @ (f el @ s)) a xs = [] \<longleftrightarrow> a = [] \<and> xs = []"
  by (induction xs arbitrary: a) auto

lemma content_of_empty_iff: "content_of doc = [] \<longleftrightarrow> container_blocks doc = {}"
proof -
  have c: "matches [Class (str ''post-content''), Tag (str ''article''), Class (str ''body'')] e
      = is_container e" for e
    by (auto simp: matches_def is_container_def)
  have b: "matches [Tag (str ''p''), Tag (str ''h2''), Tag (str ''h3'')] e = is_text_block e" for e
    by (auto simp: matches_def is_text_block_def)
  have "str ''\<newline>\<newline>'' \<noteq> []" by (simp add: str_def)
  then have "content_of doc = [] \<longleftrightarrow>
      find_in doc
        (select doc [Class (str ''post-content''), Tag (str ''article''), Class (str ''body'')])
        [Tag (str ''p''), Tag (str ''h2''), Tag (str ''h3'')] = []"
    unfolding content_of_def by (simp add: foldl_append_empty_iff)
  also have "\<dots> \<longleftrightarrow> container_blocks doc = {}"
    using find_in_nonempty_iff
      [of doc "[Class (str ''post-content''), Tag (str ''article''), Class (str ''body'')]"
          "[Tag (str ''p''), Tag (str ''h2''), Tag (str ''h3'')]"]
    unfolding c b container_blocks_def by blast
  finally show ?thesis .
qed

lemma find_in_member_iff:
  "b \<in> snd ` set (find_in doc (select doc csel) bsel) \<longleftrightarrow>
     matches bsel b \<and> (\<exists>c \<in> doc_elements doc. matches csel c \<and> b \<in> descendant_elements c)"
proof
  assume "b \<in> snd ` set (find_in doc (select doc csel) bsel)"
  then obtain p q c where pe: "(p, b) \<in> set (all_elements doc)" and me: "matches bsel b"
    and qc: "(q, c) \<in> set (all_elements doc)" and mc: "matches csel c" and pre: "strict_prefix q p"
    by (auto simp: find_in_def select_def)
  from pre obtain k where p: "p = q @ k" and k: "k \<noteq> []"
    by (auto simp: strict_prefix_def prefix_def)
  from qc have q: "doc_lookup doc q = Some c" and c: "is_Element c"
    by (simp_all add: all_elements_iff)
  then have "q \<noteq> []" by (cases q) auto
  with pe p q have "lookup c k = Some b" and "is_Element b"
    by (simp_all add: all_elements_iff doc_lookup_append)
  with k c have "b \<in> descendant_elements c"
    by (auto simp: descendant_elements_iff)
  moreover from qc have "c \<in> doc_elements doc"
    by (auto simp: doc_elements_iff)
  ultimately show "matches bsel b \<and>
      (\<exists>c \<in> doc_elements doc. matches csel c \<and> b \<in> descendant_elements c)"
    using mc me by blast
next
  assume "matches bsel b \<and> (\<exists>c \<in> doc_elements doc. matches csel c \<and> b \<in> descendant_elements c)"
  then obtain c where c: "c \<in> doc_elements doc" and mc: "matches csel c"
    and b: "b \<in> descendant_elements c" and mb: "matches bsel b"
    by blast
  from c obtain q where qc: "(q, c) \<in> set (all_elements doc)"
    by (auto simp: doc_elements_iff)
  then have q: "doc_lookup doc q = Some c" and ec: "is_Element c"
    by (simp_all add: all_elements_iff)
  then have qne: "q \<noteq> []" by (cases q) auto
  from b ec obtain k where k: "k \<noteq> []" and lk: "lookup c k = Some b" and eb: "is_Element b"
    by (auto simp: descendant_elements_iff)
  from q qne lk eb have "(q @ k, b) \<in> set (all_elements doc)"
    by (simp add: all_elements_iff doc_lookup_append)
  moreover from k have "strict_prefix q (q @ k)"
    by (simp add: strict_prefix_def)
  moreover from qc mc have "(q, c) \<in> set (select doc csel)"
    by (simp add: select_def)
  ultimately have "(q @ k, b) \<in> set (find_in doc (select doc csel) bsel)"
    using mb by (auto simp: find_in_def)
  then show "b \<in> snd ` set (find_in doc (select doc csel) bsel)"
    by force
qed

lemma container_blocks_eq:
  "container_blocks doc =
     snd ` set (find_in doc
        (select doc [Class (str ''post-content''), Tag (str ''article''), Class (str ''body'')])
        [Tag (str ''p''), Tag (str ''h2''), Tag (str ''h3'')])"
proof -
  have c: "matches [Class (str ''post-content''), Tag (str ''article''), Class (str ''body'')] e
      = is_container e" for e
    by (auto simp: matches_def is_container_def)
  have b: "matches [Tag (str ''p''), Tag (str ''h2''), Tag (str ''h3'')] e = is_text_block e" for e
    by (auto simp: matches_def is_text_block_def)
  show ?thesis
    unfolding set_eq_iff find_in_member_iff c b container_blocks_def by blast
qed

section \<open>The shape of the handler's results\<close>

lemma handler_fetched:
  assumes "name req = str ''download_substack''" and "arguments req = Some args"
    and "validateUrl (parse_url env) (url args) = Inr True"
    and "fetch env (url args) = Inr resp" and "body_text resp = Inr html"
  shows "handler env req = Inr (process_document (load env html))"
  using assms by (simp add: handler_def handler_try_def)

lemma process_document_cases:
  "process_document doc = not_substack_result \<and> \<not> hasSubstackMarkers doc
   \<or> process_document doc = subscriber_only_result \<and> hasSubstackMarkers doc \<and> content_of doc = []
   \<or> process_document doc =
        success_result (title_of doc) (author_of doc) (subtitle_of doc) (content_of doc)
      \<and> hasSubstackMarkers doc \<and> content_of doc \<noteq> []"
  by (simp add: process_document_def Let_def)

lemma handler_Inr_cases:
  assumes "handler env req = Inr r"
  shows "r = invalid_url_result \<or> (\<exists>e. r = error_result e)
       \<or> (\<exists>args resp html. arguments req = Some args \<and> fetch env (url args) = Inr resp
             \<and> body_text resp = Inr html \<and> r = process_document (load env html))"
  using assms
  by (auto simp: handler_def handler_try_def split: if_splits option.splits sum.splits)

lemma isError_results [simp]:
  "isError invalid_url_result = Some True"
  "isError not_substack_result = Some True"
  "isError subscriber_only_result = Some True"
  "isError (error_result e) = Some True"
  "isError (success_result ti au su bo) = None"
  by (simp_all add: invalid_url_result_def not_substack_result_def subscriber_only_result_def
      error_result_def success_result_def text_result_def)

lemma content_text_result [simp]:
  "content (text_result t flag) = [\<lparr>block_type = str ''text'', block_text = t\<rparr>]"
  "isError (text_result t flag) = flag"
  by (simp_all add: text_result_def)

text \<open>
  C7. A request whose tool name is not \<^verbatim>\<open>download_substack\<close> makes the handler throw the
  error \<^verbatim>\<open>Unknown tool: <name>\<close>; with the supported name the handler never throws, every
  failure is a returned result.
\<close>

theorem unknown_tool_throws:
  "(name req \<noteq> str ''download_substack'' \<longrightarrow>
      handler env req = Inl (JsError (str ''Error'') (str ''Unknown tool: '' @ name req)))
   \<and> (name req = str ''download_substack'' \<longrightarrow> (\<exists>r. handler env req = Inr r))"
  by (auto simp: handler_def split: sum.splits)

theorem unknown_tool_throws_witness:
  "str ''summarize'' \<noteq> str ''download_substack''
   \<and> handler sample_env \<lparr>name = str ''summarize'', arguments = None\<rparr> =
       Inl (JsError (str ''Error'') (str ''Unknown tool: summarize''))
   \<and> (\<exists>r. handler sample_env \<lparr>name = str ''download_substack'', arguments = None\<rparr> = Inr r)"
proof -
  have n: "str ''summarize'' \<noteq> str ''download_substack''"
    by (simp add: str_def)
  from unknown_tool_throws [of "\<lparr>name = str ''summarize'', arguments = None\<rparr>" sample_env]
    unknown_tool_throws [of "\<lparr>name = str ''download_substack'', arguments = None\<rparr>" sample_env] n
  show ?thesis by (simp add: str_def)
qed

lemmas doc_eval =
  process_document_def hasSubstackMarkers_def content_of_def find_in_def
  select_def all_elements_def str_def matches_def attr_def has_class_def is_whitespace_def
  trim_def text_of_def title_of_def subtitle_of_def author_of_def or_else_def first_def

lemma process_scenario1:
  "process_document scenario1_doc =
     \<lparr>content =
        [\<lparr>block_type = str ''text'',
          block_text =
            str ''Title: My Title\<newline>Author: \<newline>Subtitle: \<newline>\<newline>Hello\<newline>\<newline>''\<rparr>],
      isError = None\<rparr>"
  by (simp add: scenario1_doc_def doc_eval success_result_def text_result_def)

lemma validate_scenario1:
  "validateUrl sample_parser (str ''https://foo.substack.com/p/my-post'') = Inr True"
  by (simp add: validateUrl_def validateUrl_try_def sample_parser_def endsWith_def str_def)

lemma handler_scenario1:
  "handler sample_env scenario1_request = Inr (process_document scenario1_doc)"
proof -
  have "handler sample_env scenario1_request =
      Inr (process_document (load sample_env scenario1_html))"
    by (rule handler_fetched
          [where args = "\<lparr>url = str ''https://foo.substack.com/p/my-post''\<rparr>"
             and resp = "\<lparr>status = 200, body_text = Inr scenario1_html\<rparr>"])
       (simp_all add: scenario1_request_def sample_env_def validate_scenario1)
  then show ?thesis by (simp add: sample_env_def)
qed

lemma isError_process_document:
  "isError (process_document doc) = None \<longleftrightarrow> has_marker doc \<and> container_blocks doc \<noteq> {}"
  "isError (process_document doc) = Some True \<longleftrightarrow> \<not> has_marker doc \<or> container_blocks doc = {}"
  using process_document_cases [of doc]
  by (auto simp: hasSubstackMarkers_iff content_of_empty_iff)

lemma isError_process_document_None:
  "has_marker doc \<Longrightarrow> b \<in> container_blocks doc \<Longrightarrow> isError (process_document doc) = None"
  using isError_process_document(1) [of doc] by auto

lemma handler_flag_absent_iff:
  assumes "handler env req = Inr r"
  shows "isError r = None \<longleftrightarrow>
      (\<exists>args resp html. arguments req = Some args \<and>
          validateUrl (parse_url env) (url args) = Inr True \<and>
          fetch env (url args) = Inr resp \<and> body_text resp = Inr html \<and>
          has_marker (load env html) \<and> container_blocks (load env html) \<noteq> {})"
  using assms
  by (auto simp: handler_def handler_try_def isError_process_document
      isError_process_document_None split: if_splits option.splits sum.splits)

lemma handler_invalid_url_sample:
  "handler sample_env
       \<lparr>name = str ''download_substack'',
        arguments = Some \<lparr>url = str ''https://example.com/about''\<rparr>\<rparr> =
     Inr invalid_url_result"
  by (simp add: handler_def handler_try_def sample_env_def sample_parser_def validateUrl_def
        validateUrl_try_def endsWith_def post_path_test_def str_def)

text \<open>
  C10. Every result that the handler returns holds exactly one content block, of type
  \<^verbatim>\<open>text\<close>. It is either one of the failure results (invalid URL, not a Substack post,
  subscriber-only, caught error), and then \<open>isError\<close> is \<open>true\<close>, or the success result, and
  then the property \<open>isError\<close> is absent. The property is absent exactly when the URL was
  valid, the page was fetched, and the document has a marker and a paragraph or heading
  inside a container.
\<close>

theorem handler_result_envelope:
  assumes "handler env req = Inr r"
  shows "(\<exists>t. content r = [\<lparr>block_type = str ''text'', block_text = t\<rparr>])
       \<and> ((r = invalid_url_result \<or> r = not_substack_result \<or> r = subscriber_only_result \<or>
            (\<exists>e. r = error_result e)) \<and> isError r = Some True
          \<or> (\<exists>doc. r = success_result (title_of doc) (author_of doc) (subtitle_of doc)
                          (content_of doc)) \<and> isError r = None)
       \<and> (isError r = None \<longleftrightarrow>
            (\<exists>args resp html. arguments req = Some args \<and>
                validateUrl (parse_url env) (url args) = Inr True \<and>
                fetch env (url args) = Inr resp \<and> body_text resp = Inr html \<and>
                has_marker (load env html) \<and> container_blocks (load env html) \<noteq> {}))"
proof -
  note iff = handler_flag_absent_iff [OF assms]
  from handler_Inr_cases [OF assms]
  consider "r = invalid_url_result" | e where "r = error_result e"
    | html where "r = process_document (load env html)"
    by blast
  then show ?thesis
  proof cases
    case 1
    with iff show ?thesis by (simp add: invalid_url_result_def)
  next
    case 2
    with iff show ?thesis by (auto simp: error_result_def)
  next
    case 3
    with process_document_cases [of "load env html"] iff show ?thesis
      by (auto simp: not_substack_result_def subscriber_only_result_def success_result_def)
  qed
qed

theorem handler_result_envelope_witness:
  "handler sample_env scenario1_request = Inr (process_document scenario1_doc)
   \<and> content (process_document scenario1_doc) =
       [\<lparr>block_type = str ''text'',
         block_text =
           str ''Title: My Title\<newline>Author: \<newline>Subtitle: \<newline>\<newline>Hello\<newline>\<newline>''\<rparr>]
   \<and> isError (process_document scenario1_doc) = None
   \<and> handler sample_env
        \<lparr>name = str ''download_substack'',
         arguments = Some \<lparr>url = str ''https://example.com/about''\<rparr>\<rparr> =
       Inr invalid_url_result
   \<and> (\<exists>t. content invalid_url_result = [\<lparr>block_type = str ''text'', block_text = t\<rparr>])
   \<and> isError invalid_url_result = Some True"
  using handler_result_envelope [OF handler_scenario1]
    handler_result_envelope [OF handler_invalid_url_sample]
    process_scenario1 handler_scenario1 handler_invalid_url_sample
  by simp

lemma debug_written:
  "stderr (debug m a w) = stderr w @ [\<lparr>log_time = clock w (reads w), log_message = m, log_args = a\<rparr>]"
  "clock (debug m a w) = clock w"
  "reads (debug m a w) = Suc (reads w)"
  by (simp_all add: debug_def Let_def)

lemma extraction_pass_fst:
  "fst (extraction_pass env html w) = process_document (load env html)"
  by (simp add: extraction_pass_def process_document_def Let_def)

lemma extraction_pass_written:
  "written w (snd (extraction_pass env html w)) =
     (let doc = load env html
      in if \<not> hasSubstackMarkers doc then [(str ''No Substack markers found in page'', [])]
         else [(str ''Found title:'', [StringValue (title_of doc)]),
               (str ''Found author:'', [StringValue (author_of doc)]),
               (str ''Extracted content length:'', [NumberValue (length (content_of doc))])] @
              (if content_of doc = []
               then [(str ''No content found - might be subscriber-only'', [])]
               else [(str ''Successfully processed article'', [])]))"
  by (simp add: extraction_pass_def written_def Let_def debug_written)

text \<open>
  C8. The pass after the fetch, with its log calls, run on the same HTML text in two
  worlds that differ in the clock and in what was logged before: the result is the same,
  also when the second run starts in the world that the first run left, and the lines
  written are the same up to their timestamps. The result is that of \<open>process_document\<close>
  on the parsed page. In a success the result is built from the title, author, subtitle
  and body extracted from the page, and the logged title, author and body length are
  those of the page.
\<close>

theorem extraction_pass_deterministic:
  "fst (extraction_pass env html w) = fst (extraction_pass env html w')
   \<and> fst (extraction_pass env html w) = process_document (load env html)
   \<and> fst (extraction_pass env html (snd (extraction_pass env html w))) =
       fst (extraction_pass env html w)
   \<and> written w (snd (extraction_pass env html w)) = written w' (snd (extraction_pass env html w'))
   \<and> (isError (fst (extraction_pass env html w)) = None \<longrightarrow>
        fst (extraction_pass env html w) =
          success_result (title_of (load env html)) (author_of (load env html))
            (subtitle_of (load env html)) (content_of (load env html))
        \<and> written w (snd (extraction_pass env html w)) =
            [(str ''Found title:'', [StringValue (title_of (load env html))]),
             (str ''Found author:'', [StringValue (author_of (load env html))]),
             (str ''Extracted content length:'',
                [NumberValue (length (content_of (load env html)))]),
             (str ''Successfully processed article'', [])])"
  using process_document_cases [of "load env html"]
  by (auto simp: extraction_pass_fst extraction_pass_written Let_def)

theorem extraction_pass_deterministic_witness:
  "fst (extraction_pass sample_env scenario1_html morning_world) =
     fst (extraction_pass sample_env scenario1_html evening_world)
   \<and> isError (fst (extraction_pass sample_env scenario1_html morning_world)) = None
   \<and> fst (extraction_pass sample_env scenario1_html morning_world) =
       success_result (str ''My Title'') [] [] (str ''Hello\<newline>\<newline>'')
   \<and> map log_time (stderr (snd (extraction_pass sample_env scenario1_html morning_world))) =
       [1000, 1001, 1002, 1003]
   \<and> map log_time (stderr (snd (extraction_pass sample_env scenario1_html evening_world))) =
       [89990, 90015, 90020, 90025, 90030]"
proof -
  have l: "load sample_env scenario1_html = scenario1_doc"
    by (simp add: sample_env_def)
  have r: "fst (extraction_pass sample_env scenario1_html morning_world) =
       success_result (str ''My Title'') [] [] (str ''Hello\<newline>\<newline>'')"
    by (simp add: extraction_pass_def l Let_def scenario1_doc_def doc_eval)
  have e: "isError (fst (extraction_pass sample_env scenario1_html morning_world)) = None"
    by (simp add: r)
  have m: "map log_time (stderr (snd (extraction_pass sample_env scenario1_html morning_world))) =
       [1000, 1001, 1002, 1003]"
    by (simp add: extraction_pass_def l Let_def scenario1_doc_def doc_eval debug_def
        morning_world_def)
  have v: "map log_time (stderr (snd (extraction_pass sample_env scenario1_html evening_world))) =
       [89990, 90015, 90020, 90025, 90030]"
    by (simp add: extraction_pass_def l Let_def scenario1_doc_def doc_eval debug_def
        evening_world_def)
  from extraction_pass_deterministic [of sample_env scenario1_html morning_world evening_world]
    r e m v
  show ?thesis by auto
qed

text \<open>
  C4. A result without error flag is a single content block of type \<^verbatim>\<open>text\<close> whose text is
  \<^verbatim>\<open>Title: \<close>, the title, \<^verbatim>\<open>\nAuthor: \<close>, the author, \<^verbatim>\<open>\nSubtitle: \<close>, the subtitle, two
  newlines and the body, all extracted from the fetched document, and the property
  \<open>isError\<close> is absent. For the request and page of scenario 1 the text is
  \<^verbatim>\<open>Title: My Title\nAuthor: \nSubtitle: \n\nHello\n\n\<close>.
\<close>

theorem success_response_format:
  "(handler env req = Inr r \<and> isError r \<noteq> Some True \<longrightarrow>
      (\<exists>args resp html doc.
          arguments req = Some args \<and> fetch env (url args) = Inr resp \<and>
          body_text resp = Inr html \<and> doc = load env html \<and>
          r = \<lparr>content =
                 [\<lparr>block_type = str ''text'',
                   block_text =
                     str ''Title: '' @ title_of doc @ str ''\<newline>Author: '' @ author_of doc @
                     str ''\<newline>Subtitle: '' @ subtitle_of doc @ str ''\<newline>\<newline>'' @
                     content_of doc\<rparr>],
               isError = None\<rparr>))
   \<and> handler sample_env scenario1_request =
       Inr \<lparr>content =
              [\<lparr>block_type = str ''text'',
                block_text =
                  str ''Title: My Title\<newline>Author: \<newline>Subtitle: \<newline>\<newline>Hello\<newline>\<newline>''\<rparr>],
            isError = None\<rparr>"
proof (intro conjI impI)
  assume a: "handler env req = Inr r \<and> isError r \<noteq> Some True"
  with handler_Inr_cases [of env req r]
  obtain args resp html where f: "arguments req = Some args" "fetch env (url args) = Inr resp"
    "body_text resp = Inr html" and r: "r = process_document (load env html)"
    by auto
  from a r process_document_cases [of "load env html"]
  have "r = success_result (title_of (load env html)) (author_of (load env html))
              (subtitle_of (load env html)) (content_of (load env html))"
    by auto
  with f show "\<exists>args resp html doc.
          arguments req = Some args \<and> fetch env (url args) = Inr resp \<and>
          body_text resp = Inr html \<and> doc = load env html \<and>
          r = \<lparr>content =
                 [\<lparr>block_type = str ''text'',
                   block_text =
                     str ''Title: '' @ title_of doc @ str ''\<newline>Author: '' @ author_of doc @
                     str ''\<newline>Subtitle: '' @ subtitle_of doc @ str ''\<newline>\<newline>'' @
                     content_of doc\<rparr>],
               isError = None\<rparr>"
    by (simp add: success_result_def text_result_def)
next
  show "handler sample_env scenario1_request =
       Inr \<lparr>content =
              [\<lparr>block_type = str ''text'',
                block_text =
                  str ''Title: My Title\<newline>Author: \<newline>Subtitle: \<newline>\<newline>Hello\<newline>\<newline>''\<rparr>],
            isError = None\<rparr>"
    by (simp only: handler_scenario1 process_scenario1)
qed

theorem success_response_format_witness:
  "handler sample_env scenario1_request = Inr (process_document scenario1_doc)
   \<and> isError (process_document scenario1_doc) \<noteq> Some True
   \<and> process_document scenario1_doc =
       \<lparr>content =
          [\<lparr>block_type = str ''text'',
            block_text =
              str ''Title: '' @ title_of scenario1_doc @ str ''\<newline>Author: '' @
              author_of scenario1_doc @ str ''\<newline>Subtitle: '' @
              subtitle_of scenario1_doc @ str ''\<newline>\<newline>'' @
              content_of scenario1_doc\<rparr>],
        isError = None\<rparr>"
proof -
  have e: "isError (process_document scenario1_doc) \<noteq> Some True"
    by (simp add: process_scenario1)
  from success_response_format [of sample_env scenario1_request "process_document scenario1_doc"]
    handler_scenario1 e
  obtain html where "fetch sample_env (str ''https://foo.substack.com/p/my-post'') =
        Inr \<lparr>status = 200, body_text = Inr html\<rparr>"
    and r: "process_document scenario1_doc =
       \<lparr>content =
          [\<lparr>block_type = str ''text'',
            block_text =
              str ''Title: '' @ title_of (load sample_env html) @ str ''\<newline>Author: '' @
              author_of (load sample_env html) @ str ''\<newline>Subtitle: '' @
              subtitle_of (load sample_env html) @ str ''\<newline>\<newline>'' @
              content_of (load sample_env html)\<rparr>],
        isError = None\<rparr>"
    by (auto simp: scenario1_request_def sample_env_def)
  then have "html = scenario1_html"
    by (simp add: sample_env_def)
  moreover have "load sample_env scenario1_html = scenario1_doc"
    by (simp add: sample_env_def)
  ultimately show ?thesis
    using r handler_scenario1 e by simp
qed

section \<open>Classification and extraction\<close>

lemma failure_results_distinct:
  "not_substack_result \<noteq> subscriber_only_result"
  "not_substack_result \<noteq> success_result ti au su bo"
  "subscriber_only_result \<noteq> success_result ti au su bo"
  by (simp_all add: not_substack_result_def subscriber_only_result_def success_result_def
      text_result_def str_def)

text \<open>
  C2. The result for a document is the ``not a Substack post'' failure if and only if no
  element of the document is one of the four markers: a \<^verbatim>\<open>meta\<close> element whose \<^verbatim>\<open>content\<close>
  attribute contains \<^verbatim>\<open>substack\<close>, a \<^verbatim>\<open>script\<close> element whose \<^verbatim>\<open>src\<close> attribute contains
  \<^verbatim>\<open>substack\<close>, an element with class \<^verbatim>\<open>post-content\<close>, an element with class
  \<^verbatim>\<open>subscriber-only\<close>. Without a marker the result carries the error flag and is no success
  result, whatever its fields would be.
\<close>

theorem not_substack_iff_no_marker:
  "(process_document doc = not_substack_result \<longleftrightarrow> \<not> has_marker doc)
   \<and> (\<not> has_marker doc \<longrightarrow>
        isError (process_document doc) = Some True \<and>
        (\<forall>ti au su bo. process_document doc \<noteq> success_result ti au su bo))"
  using process_document_cases [of doc] failure_results_distinct
    failure_results_distinct [symmetric]
  by (auto simp: hasSubstackMarkers_iff)

theorem not_substack_iff_no_marker_witness:
  "\<not> has_marker empty_page_doc
   \<and> process_document empty_page_doc = not_substack_result
   \<and> isError (process_document empty_page_doc) = Some True
   \<and> has_marker scenario1_doc
   \<and> process_document scenario1_doc \<noteq> not_substack_result"
proof -
  have "\<not> hasSubstackMarkers empty_page_doc"
    by (simp add: empty_page_doc_def doc_eval)
  then have e: "\<not> has_marker empty_page_doc"
    by (simp add: hasSubstackMarkers_iff)
  have "hasSubstackMarkers scenario1_doc"
    by (simp add: scenario1_doc_def doc_eval)
  then have s: "has_marker scenario1_doc"
    by (simp add: hasSubstackMarkers_iff)
  from not_substack_iff_no_marker [of empty_page_doc] not_substack_iff_no_marker [of scenario1_doc]
    e s
  show ?thesis by simp
qed

text \<open>
  C3, as stated, fails: a found paragraph or heading adds two newlines to the body even
  when its trimmed text is empty. A page with a marker whose container holds only a blank
  paragraph and an empty heading yields no paragraph or heading text, and its result is
  a success with a body of four newlines.
\<close>

theorem blank_paragraphs_counterexample:
  "has_marker blank_paragraphs_doc
   \<and> containers_yield_no_text blank_paragraphs_doc
   \<and> process_document blank_paragraphs_doc =
       success_result (str ''Blank'') [] [] (str ''\<newline>\<newline>\<newline>\<newline>'')
   \<and> process_document blank_paragraphs_doc \<noteq> subscriber_only_result"
proof -
  have "hasSubstackMarkers blank_paragraphs_doc"
    by (simp add: blank_paragraphs_doc_def doc_eval)
  then have m: "has_marker blank_paragraphs_doc"
    by (simp add: hasSubstackMarkers_iff)
  have "find_in blank_paragraphs_doc
        (select blank_paragraphs_doc
           [Class (str ''post-content''), Tag (str ''article''), Class (str ''body'')])
        [Tag (str ''p''), Tag (str ''h2''), Tag (str ''h3'')] =
      [([0, 1, 1, 0], Element (str ''p'') [] [Text (str ''   '')]),
       ([0, 1, 1, 1], Element (str ''h2'') [] [])]"
    by (simp add: blank_paragraphs_doc_def doc_eval)
  then have "container_blocks blank_paragraphs_doc =
      {Element (str ''p'') [] [Text (str ''   '')], Element (str ''h2'') [] []}"
    by (simp add: container_blocks_eq)
  then have n: "containers_yield_no_text blank_paragraphs_doc"
    by (simp add: containers_yield_no_text_def trim_def str_def is_whitespace_def)
  have p: "process_document blank_paragraphs_doc =
       success_result (str ''Blank'') [] [] (str ''\<newline>\<newline>\<newline>\<newline>'')"
    by (simp add: blank_paragraphs_doc_def doc_eval)
  from m n p show ?thesis
    using failure_results_distinct(3) [of "str ''Blank''" "[]" "[]" "str ''\<newline>\<newline>\<newline>\<newline>''"]
    by simp
qed

text \<open>
  C3, amended. A document with a marker in which no \<^verbatim>\<open>p\<close>, \<^verbatim>\<open>h2\<close> or \<^verbatim>\<open>h3\<close> element lies
  inside a container (class \<^verbatim>\<open>post-content\<close>, tag \<^verbatim>\<open>article\<close>, class \<^verbatim>\<open>body\<close>) gets the
  subscriber-only failure, whatever title, subtitle and author it has. A result without
  error flag has a non-empty body, an empty body gives a result with the error flag, and
  the body is empty exactly when no such element is found.
\<close>

theorem empty_body_is_failure:
  "(has_marker doc \<and> container_blocks doc = {} \<longrightarrow>
      process_document doc = subscriber_only_result)
   \<and> (isError (process_document doc) \<noteq> Some True \<longrightarrow>
        content_of doc \<noteq> [] \<and>
        process_document doc =
          success_result (title_of doc) (author_of doc) (subtitle_of doc) (content_of doc))
   \<and> (content_of doc = [] \<longrightarrow> isError (process_document doc) = Some True)
   \<and> (content_of doc = [] \<longleftrightarrow> container_blocks doc = {})"
  using process_document_cases [of doc]
  by (auto simp: hasSubstackMarkers_iff content_of_empty_iff)

theorem empty_body_is_failure_witness:
  "has_marker paywalled_doc \<and> container_blocks paywalled_doc = {}
   \<and> title_of paywalled_doc = str ''Locked Post''
   \<and> content_of paywalled_doc = []
   \<and> process_document paywalled_doc = subscriber_only_result
   \<and> isError (process_document paywalled_doc) = Some True"
proof -
  have "hasSubstackMarkers paywalled_doc"
    by (simp add: paywalled_doc_def doc_eval)
  then have m: "has_marker paywalled_doc"
    by (simp add: hasSubstackMarkers_iff)
  have c: "content_of paywalled_doc = []"
    by (simp add: paywalled_doc_def doc_eval)
  then have b: "container_blocks paywalled_doc = {}"
    by (simp add: content_of_empty_iff)
  have t: "title_of paywalled_doc = str ''Locked Post''"
    by (simp add: paywalled_doc_def doc_eval)
  from empty_body_is_failure [of paywalled_doc] m b c t
  show ?thesis by simp
qed

text \<open>
  C6, as stated, fails: \<^verbatim>\<open>.text()\<close> of a selection joins the texts of all its elements, so
  with two elements of class \<^verbatim>\<open>subtitle\<close> the subtitle is not the text of the first one.
\<close>

theorem subtitle_first_element_counterexample:
  "subtitle_of two_subtitles_doc = str ''OneTwo''
   \<and> first_subtitle_text two_subtitles_doc = str ''One''
   \<and> subtitle_of two_subtitles_doc \<noteq> first_subtitle_text two_subtitles_doc"
  by (simp add: two_subtitles_doc_def first_subtitle_text_def doc_eval)

text \<open>
  C6, amended. The subtitle is the trimmed concatenation, in document order, of the texts
  of all elements with class \<^verbatim>\<open>subtitle\<close>; with exactly one such element it is the trimmed
  text of that element; with none it is the empty string. Whether the result is a failure
  depends on the markers and on the body only, so a missing subtitle never causes one.
\<close>

theorem subtitle_all_elements:
  "subtitle_of doc = trim (concat (map (\<lambda>(p, e). textContent e) (select doc [Class (str ''subtitle'')])))
   \<and> (\<forall>p e. select doc [Class (str ''subtitle'')] = [(p, e)] \<longrightarrow>
        subtitle_of doc = trim (textContent e) \<and> subtitle_of doc = first_subtitle_text doc)
   \<and> (\<not> (\<exists>e \<in> doc_elements doc. has_class (str ''subtitle'') e) \<longrightarrow> subtitle_of doc = [])
   \<and> (isError (process_document doc) = Some True \<longleftrightarrow>
        \<not> has_marker doc \<or> container_blocks doc = {})"
proof -
  have "select doc [Class (str ''subtitle'')] = []"
    if "\<not> (\<exists>e \<in> doc_elements doc. has_class (str ''subtitle'') e)"
    using that select_nonempty_iff [of doc "[Class (str ''subtitle'')]"]
    by (auto simp: matches_def)
  moreover have "trim [] = []"
    by (simp add: trim_def)
  moreover have "isError (process_document doc) = Some True \<longleftrightarrow>
        \<not> has_marker doc \<or> container_blocks doc = {}"
    using process_document_cases [of doc]
    by (auto simp: hasSubstackMarkers_iff content_of_empty_iff)
  ultimately show ?thesis
    by (auto simp: subtitle_of_def text_of_def first_subtitle_text_def)
qed

theorem subtitle_all_elements_witness:
  "\<not> (\<exists>e \<in> doc_elements scenario1_doc. has_class (str ''subtitle'') e)
   \<and> subtitle_of scenario1_doc = []
   \<and> isError (process_document scenario1_doc) = None
   \<and> select subtitled_doc [Class (str ''subtitle'')] =
       [([0, 1, 1], Element (str ''h3'') [(str ''class'', str ''subtitle'')] [Text (str '' A subtitle '')])]
   \<and> subtitle_of subtitled_doc = str ''A subtitle''"
proof -
  have sel: "select subtitled_doc [Class (str ''subtitle'')] =
       [([0, 1, 1], Element (str ''h3'') [(str ''class'', str ''subtitle'')] [Text (str '' A subtitle '')])]"
    by (simp add: subtitled_doc_def doc_eval)
  have tr: "trim (str '' A subtitle '') = str ''A subtitle''"
    by (simp add: trim_def str_def is_whitespace_def)
  have "select scenario1_doc [Class (str ''subtitle'')] = []"
    by (simp add: scenario1_doc_def doc_eval)
  then have n: "\<not> (\<exists>e \<in> doc_elements scenario1_doc. has_class (str ''subtitle'') e)"
    using select_nonempty_iff [of scenario1_doc "[Class (str ''subtitle'')]"]
    by (auto simp: matches_def)
  from subtitle_all_elements [of subtitled_doc] sel tr
  have "subtitle_of subtitled_doc = str ''A subtitle''"
    by simp
  with subtitle_all_elements [of scenario1_doc] n process_scenario1 sel
  show ?thesis by auto
qed

end
